theory Spec2Isabelle
  imports Complex_Main
begin

section \<open>Python strings and character classes\<close>

text \<open>
  A Python \<open>str\<close> is a sequence of Unicode code points, so a string is modelled as a
  list of code points and \<open>len\<close> is \<open>length\<close>. A literal is written through
  \<open>str\<close>, which maps every ASCII character to its code point.
\<close>

type_synonym codepoint = nat
type_synonym pystr = "codepoint list"

definition str :: "string \<Rightarrow> pystr" where
  "str s = map of_char s"

text \<open>
  \<open>ocr.py\<close> classifies characters three ways: \<open>\d\<close> in a regular expression (a
  Unicode decimal digit), \<open>\s\<close> in a regular expression (Unicode whitespace) and
  \<open>str.isdigit\<close> (a decimal digit or another character carrying a digit value, such as
  a superscript digit). On ASCII the three classes are fixed by the language and written
  out below. Beyond ASCII they are read from the Unicode database of the interpreter, which
  is not part of the repository: that part is the parameter \<open>U\<close>.
\<close>

record unicode_db =
  db_decimal :: "codepoint \<Rightarrow> bool"
  db_other_digit :: "codepoint \<Rightarrow> bool"
  db_space :: "codepoint \<Rightarrow> bool"

definition re_digit :: "unicode_db \<Rightarrow> codepoint \<Rightarrow> bool" where
  "re_digit U c = (if c < 128 then 48 \<le> c \<and> c \<le> 57 else db_decimal U c)"

definition re_space :: "unicode_db \<Rightarrow> codepoint \<Rightarrow> bool" where
  "re_space U c =
     (if c < 128 then (9 \<le> c \<and> c \<le> 13) \<or> (28 \<le> c \<and> c \<le> 32) else db_space U c)"

definition isdigit_char :: "unicode_db \<Rightarrow> codepoint \<Rightarrow> bool" where
  "isdigit_char U c = (re_digit U c \<or> (128 \<le> c \<and> db_other_digit U c))"

text \<open>\<open>s.isdigit()\<close>: every character is a digit and there is at least one character.\<close>

definition isdigit :: "unicode_db \<Rightarrow> pystr \<Rightarrow> bool" where
  "isdigit U s = (s \<noteq> [] \<and> list_all (isdigit_char U) s)"

text \<open>The database that knows no character beyond ASCII, for concrete evaluation.\<close>

definition ascii_db :: unicode_db where
  "ascii_db = \<lparr>db_decimal = (\<lambda>c. False), db_other_digit = (\<lambda>c. False), db_space = (\<lambda>c. False)\<rparr>"

section \<open>The plausibility validator\<close>

text \<open>
  \<open>is_valid_meter_reading\<close>, check by check in the order of the source;
  \<open>len(set(reading))\<close> is the number of distinct characters.
\<close>

definition is_valid_meter_reading :: "unicode_db \<Rightarrow> pystr \<Rightarrow> bool" where
  "is_valid_meter_reading U reading =
     (if reading = [] \<or> \<not> isdigit U reading then False
      else if length reading < 4 \<or> length reading > 7 then False
      else if card (set reading) = 1 then False
      else (let unique_digits = card (set reading) in
            if unique_digits < 2 then False
            else True))"

text \<open>
  The validator as the specification proposes to collapse it: the same checks with the
  rule on fewer than two distinct digit values removed.
\<close>

definition is_valid_meter_reading_collapsed :: "unicode_db \<Rightarrow> pystr \<Rightarrow> bool" where
  "is_valid_meter_reading_collapsed U reading =
     (if reading = [] \<or> \<not> isdigit U reading then False
      else if length reading < 4 \<or> length reading > 7 then False
      else if card (set reading) = 1 then False
      else True)"

section \<open>The text normalizer\<close>

text \<open>
  \<open>re.sub(r"[...]", "", text)\<close> with a character class deletes every character of the
  class; \<open>text.replace(a, b)\<close> with one-character arguments maps \<open>a\<close> to \<open>b\<close>.
\<close>

definition remove_chars :: "(codepoint \<Rightarrow> bool) \<Rightarrow> pystr \<Rightarrow> pystr" where
  "remove_chars P text = filter (\<lambda>c. \<not> P c) text"

definition replace_char :: "codepoint \<Rightarrow> codepoint \<Rightarrow> pystr \<Rightarrow> pystr" where
  "replace_char a b text = map (\<lambda>c. if c = a then b else c) text"

text \<open>
  The class \<open>[^\d\s\.\-\(\)O\|I\[\]]\<close> of the first substitution: everything that is not
  a decimal digit, whitespace, or one of \<open>. - ( ) O | I [ ]\<close>.
\<close>

definition noise_char :: "unicode_db \<Rightarrow> codepoint \<Rightarrow> bool" where
  "noise_char U c =
     (\<not> (re_digit U c \<or> re_space U c \<or> c \<in> set (str ''.-()O|I[]'')))"

text \<open>The class \<open>[\.\-\(\)]\<close> of the second substitution.\<close>

definition punct_char :: "codepoint \<Rightarrow> bool" where
  "punct_char c = (c \<in> set (str ''.-()''))"

text \<open>
  \<open>re.sub(r"^[^\d]*", "", text)\<close> matches once, at the start, and deletes the longest
  prefix without a decimal digit. \<open>re.sub(r"[^\d]*$", "", text)\<close> matches leftmost at the
  start of the longest suffix without a decimal digit, greedily up to the end, and deletes
  that suffix (a final newline is itself not a digit, so \<open>$\<close> before it changes nothing).
\<close>

definition strip_leading :: "unicode_db \<Rightarrow> pystr \<Rightarrow> pystr" where
  "strip_leading U text = dropWhile (\<lambda>c. \<not> re_digit U c) text"

definition strip_trailing :: "unicode_db \<Rightarrow> pystr \<Rightarrow> pystr" where
  "strip_trailing U text = rev (dropWhile (\<lambda>c. \<not> re_digit U c) (rev text))"

definition clean_ocr_text :: "unicode_db \<Rightarrow> pystr \<Rightarrow> pystr" where
  "clean_ocr_text U text =
     (if text = [] then []
      else
        let text1 = remove_chars (noise_char U) text;
            text2 = replace_char (of_char CHR ''|'') (of_char CHR ''1'')
                      (replace_char (of_char CHR ''I'') (of_char CHR ''1'')
                        (replace_char (of_char CHR ''O'') (of_char CHR ''0'') text1));
            text3 = replace_char (of_char CHR '']'') (of_char CHR ''1'')
                      (replace_char (of_char CHR ''['') (of_char CHR ''1'') text2);
            text4 = remove_chars punct_char text3;
            text5 = remove_chars (\<lambda>c. c = of_char CHR '' '') text4;
            text6 = strip_leading U text5;
            text7 = strip_trailing U text6
        in text7)"

text \<open>
  The substitution table in the words of the specification: letter O becomes 0; letter I,
  the vertical bar and both brackets become 1; every other character is left alone.
\<close>

definition ocr_substitute :: "codepoint \<Rightarrow> codepoint" where
  "ocr_substitute c =
     (if c = of_char CHR ''O'' then of_char CHR ''0''
      else if c \<in> set (str ''I|[]'') then of_char CHR ''1''
      else c)"

section \<open>Exceptions, library calls and the invocation trace\<close>

text \<open>
  Every call into PIL, numpy, OpenCV or pytesseract may raise; the source guards them with
  \<open>try: ... except Exception\<close>. A computation therefore yields either an exception or a
  value, together with the events it went through: the strategies entered and the
  thresholds visited, in order. The \<open>print\<close> calls of the source are diagnostics and are
  left out.
\<close>

datatype exn = Exception string

datatype event = PrimaryOCR | EnhancedOCR | ContourFallback | Threshold nat

type_synonym 'a run = "(exn + 'a) \<times> event list"

definition ret :: "'a \<Rightarrow> 'a run" where
  "ret x = (Inr x, [])"

definition call :: "exn + 'a \<Rightarrow> 'a run" where
  "call r = (r, [])"

definition emit :: "event \<Rightarrow> unit run" where
  "emit ev = (Inr (), [ev])"

text \<open>Sequencing: an exception in the first part skips the rest.\<close>

definition and_then :: "'a run \<Rightarrow> ('a \<Rightarrow> 'b run) \<Rightarrow> 'b run" where
  "and_then m f =
     (case m of
        (Inl e, tr) \<Rightarrow> (Inl e, tr)
      | (Inr x, tr) \<Rightarrow> (case f x of (r, tr') \<Rightarrow> (r, tr @ tr')))"

text \<open>\<open>try: m except Exception as e: h e\<close>.\<close>

definition try_except :: "'a run \<Rightarrow> (exn \<Rightarrow> 'a run) \<Rightarrow> 'a run" where
  "try_except m h =
     (case m of
        (Inl e, tr) \<Rightarrow> (case h e of (r, tr') \<Rightarrow> (r, tr @ tr'))
      | (Inr x, tr) \<Rightarrow> (Inr x, tr))"

text \<open>
  The library calls of \<open>ocr.py\<close>, over an image buffer type \<open>'b\<close>, a pixel matrix type
  \<open>'i\<close> and a contour type \<open>'c\<close>:
  \<^item> \<open>decode_rgb\<close>: \<open>np.array(Image.open(image_bytes).convert("RGB"))\<close>;
  \<^item> \<open>image_to_string\<close>: \<open>pytesseract.image_to_string\<close> with the digit whitelist;
  \<^item> \<open>ndim\<close>: \<open>len(image.shape)\<close>;
  \<^item> \<open>cvtColor\<close>: \<open>cv2.cvtColor(_, cv2.COLOR_RGB2GRAY)\<close>;
  \<^item> \<open>clahe_apply\<close>: \<open>cv2.createCLAHE(clipLimit=2.0, tileGridSize=(8, 8)).apply\<close>;
  \<^item> \<open>threshold\<close>: \<open>cv2.threshold(_, thresh_val, 255, cv2.THRESH_BINARY)\<close>;
  \<^item> \<open>morph_close\<close>, \<open>morph_open\<close>: \<open>cv2.morphologyEx\<close> with the 3x3 rectangle;
  \<^item> \<open>findContours\<close>, \<open>boundingRect\<close>, \<open>contourArea\<close>: the OpenCV functions.
\<close>

record ('b, 'i, 'c) env =
  decode_rgb :: "'b \<Rightarrow> exn + 'i"
  image_to_string :: "'i \<Rightarrow> exn + pystr"
  ndim :: "'i \<Rightarrow> nat"
  cvtColor :: "'i \<Rightarrow> exn + 'i"
  clahe_apply :: "'i \<Rightarrow> exn + 'i"
  threshold :: "'i \<Rightarrow> nat \<Rightarrow> exn + 'i"
  morph_close :: "'i \<Rightarrow> exn + 'i"
  morph_open :: "'i \<Rightarrow> exn + 'i"
  findContours :: "'i \<Rightarrow> exn + 'c list"
  boundingRect :: "'c \<Rightarrow> exn + (int \<times> int \<times> int \<times> int)"
  contourArea :: "'c \<Rightarrow> exn + rat"

section \<open>The contour fallback\<close>

text \<open>
  The filter on one contour. \<open>w / h\<close> is only evaluated when \<open>8 < h\<close>, so it never
  divides by zero; for \<open>w\<close> and \<open>h\<close> below 200 the floating-point comparisons with
  0.3 and 3 agree with the exact ones.
\<close>

definition digit_like :: "int \<Rightarrow> int \<Rightarrow> rat \<Rightarrow> bool" where
  "digit_like w h area =
     (if 8 < w \<and> w < 200 \<and> 8 < h \<and> h < 200 \<and> area > 15 then
        (let aspect_ratio = (of_int w / of_int h :: rat) in
         3 / 10 < aspect_ratio \<and> aspect_ratio < 3)
      else False)"

text \<open>The loop \<open>for cnt in contours\<close>, building \<open>digit_regions\<close>.\<close>

fun collect_regions ::
  "('b, 'i, 'c) env \<Rightarrow> 'c list \<Rightarrow> exn + (int \<times> 'c \<times> int \<times> int \<times> rat) list" where
  "collect_regions E [] = Inr []"
| "collect_regions E (cnt # rest) =
     (case boundingRect E cnt of
        Inl e \<Rightarrow> Inl e
      | Inr (x, y, w, h) \<Rightarrow>
          (case contourArea E cnt of
             Inl e \<Rightarrow> Inl e
           | Inr area \<Rightarrow>
               (case collect_regions E rest of
                  Inl e \<Rightarrow> Inl e
                | Inr regions \<Rightarrow>
                    Inr (if digit_like w h area then (x, cnt, w, h, area) # regions
                         else regions))))"

text \<open>
  The first half of the body of \<open>for thresh_val in [...]\<close>: binarize, close, open, find
  the contours and filter them.
\<close>

definition regions_at ::
  "('b, 'i, 'c) env \<Rightarrow> 'i \<Rightarrow> nat \<Rightarrow> exn + (int \<times> 'c \<times> int \<times> int \<times> rat) list" where
  "regions_at E enhanced thresh_val =
     (case threshold E enhanced thresh_val of
        Inl e \<Rightarrow> Inl e
      | Inr thresh \<Rightarrow>
          (case morph_close E thresh of
             Inl e \<Rightarrow> Inl e
           | Inr morph \<Rightarrow>
               (case morph_open E morph of
                  Inl e \<Rightarrow> Inl e
                | Inr morph' \<Rightarrow>
                    (case findContours E morph' of
                       Inl e \<Rightarrow> Inl e
                     | Inr contours \<Rightarrow> collect_regions E contours))))"

text \<open>\<open>"".join([str(i % 10) for i in range(n)])\<close>.\<close>

definition placeholder_digits :: "nat \<Rightarrow> pystr" where
  "placeholder_digits n = map (\<lambda>i. of_char CHR ''0'' + i mod 10) [0..<n]"

definition thresholds :: "nat list" where
  "thresholds = [100, 127, 150, 180]"

text \<open>
  The threshold loop, carrying \<open>(best_digits, best_count)\<close>. Sorting the regions by their
  x-coordinate does not change how many there are.
\<close>

fun sweep ::
  "('b, 'i, 'c) env \<Rightarrow> 'i \<Rightarrow> nat list \<Rightarrow> pystr \<times> nat \<Rightarrow> (pystr \<times> nat) run" where
  "sweep E enhanced [] (best_digits, best_count) = ret (best_digits, best_count)"
| "sweep E enhanced (thresh_val # rest) (best_digits, best_count) =
     and_then (emit (Threshold thresh_val)) (\<lambda>_.
     and_then (call (regions_at E enhanced thresh_val)) (\<lambda>digit_regions.
       sweep E enhanced rest
         (if 4 \<le> length digit_regions \<and> length digit_regions \<le> 7 then
            (let sorted_regions = sort_key (\<lambda>(x, cnt, w, h, area). x) digit_regions;
                 result = placeholder_digits (length sorted_regions)
             in if length sorted_regions > best_count
                then (result, length sorted_regions)
                else (best_digits, best_count))
          else (best_digits, best_count))))"

text \<open>The statements inside \<open>try\<close> of \<open>extract_digits_from_contours\<close>.\<close>

definition extract_digits_from_contours_body :: "('b, 'i, 'c) env \<Rightarrow> 'i \<Rightarrow> pystr run" where
  "extract_digits_from_contours_body E img =
     and_then (call (if ndim E img = 3 then cvtColor E img else Inr img)) (\<lambda>gray.
     and_then (call (clahe_apply E gray)) (\<lambda>enhanced.
     and_then (sweep E enhanced thresholds ([], 0)) (\<lambda>(best_digits, best_count).
       if best_digits \<noteq> [] then ret best_digits
       else ret [])))"

definition extract_digits_from_contours :: "('b, 'i, 'c) env \<Rightarrow> 'i \<Rightarrow> pystr run" where
  "extract_digits_from_contours E img =
     try_except (extract_digits_from_contours_body E img) (\<lambda>e. ret [])"

section \<open>The orchestrator\<close>

text \<open>
  Each of the two OCR blocks either returns from the function with a text (\<open>Some\<close>) or
  falls through to the next block (\<open>None\<close>).
\<close>

definition method1_original_ocr ::
  "unicode_db \<Rightarrow> ('b, 'i, 'c) env \<Rightarrow> 'i \<Rightarrow> pystr option run" where
  "method1_original_ocr U E image_np =
     try_except
       (and_then (emit PrimaryOCR) (\<lambda>_.
        and_then (call (image_to_string E image_np)) (\<lambda>raw_text.
          let text = clean_ocr_text U raw_text in
          if is_valid_meter_reading U text then ret (Some text)
          else ret None)))
       (\<lambda>e. ret None)"

text \<open>The library calls of the second block, up to the raw text.\<close>

definition enhanced_raw_text :: "('b, 'i, 'c) env \<Rightarrow> 'i \<Rightarrow> exn + pystr" where
  "enhanced_raw_text E image_np =
     (case cvtColor E image_np of
        Inl e \<Rightarrow> Inl e
      | Inr gray \<Rightarrow>
          (case clahe_apply E gray of
             Inl e \<Rightarrow> Inl e
           | Inr enhanced \<Rightarrow>
               (case threshold E enhanced 150 of
                  Inl e \<Rightarrow> Inl e
                | Inr thresh \<Rightarrow> image_to_string E thresh)))"

definition method2_enhanced_ocr ::
  "unicode_db \<Rightarrow> ('b, 'i, 'c) env \<Rightarrow> 'i \<Rightarrow> pystr option run" where
  "method2_enhanced_ocr U E image_np =
     try_except
       (and_then (emit EnhancedOCR) (\<lambda>_.
        and_then (call (enhanced_raw_text E image_np)) (\<lambda>raw_text.
          let text = clean_ocr_text U raw_text in
          if is_valid_meter_reading U text then ret (Some text)
          else ret None)))
       (\<lambda>e. ret None)"

definition method3_contour_fallback ::
  "unicode_db \<Rightarrow> ('b, 'i, 'c) env \<Rightarrow> 'i \<Rightarrow> pystr run" where
  "method3_contour_fallback U E image_np =
     and_then (emit ContourFallback) (\<lambda>_.
     and_then (extract_digits_from_contours E image_np) (\<lambda>result.
       if result \<noteq> [] \<and> is_valid_meter_reading U result then ret result
       else ret []))"

definition extract_meter_reading ::
  "unicode_db \<Rightarrow> ('b, 'i, 'c) env \<Rightarrow> 'b \<Rightarrow> pystr run" where
  "extract_meter_reading U E image_bytes =
     try_except
       (and_then (call (decode_rgb E image_bytes)) (\<lambda>image_np.
        and_then (method1_original_ocr U E image_np) (\<lambda>r1.
          case r1 of
            Some text \<Rightarrow> ret text
          | None \<Rightarrow>
              and_then (method2_enhanced_ocr U E image_np) (\<lambda>r2.
                case r2 of
                  Some text \<Rightarrow> ret text
                | None \<Rightarrow> method3_contour_fallback U E image_np))))
       (\<lambda>e. ret [])"

text \<open>The strategies of a trace, without the thresholds of the sweep.\<close>

fun is_strategy :: "event \<Rightarrow> bool" where
  "is_strategy (Threshold t) = False"
| "is_strategy ev = True"

definition strategies :: "event list \<Rightarrow> event list" where
  "strategies tr = filter is_strategy tr"


section \<open>Auxiliary notions for the proofs\<close>

text \<open>
  What an OCR block hands on, as a function of the outcome of its library calls: nothing
  when they raised or when the normalized text is rejected, the normalized text otherwise.
\<close>

definition candidate :: "unicode_db \<Rightarrow> exn + pystr \<Rightarrow> pystr option" where
  "candidate U r =
     (case r of
        Inl e \<Rightarrow> None
      | Inr raw_text \<Rightarrow>
          (let text = clean_ocr_text U raw_text in
           if is_valid_meter_reading U text then Some text else None))"

text \<open>The values the loop variables of the sweep can hold.\<close>

definition placeholder_state :: "pystr \<times> nat \<Rightarrow> bool" where
  "placeholder_state best =
     (case best of (best_digits, best_count) \<Rightarrow>
        (best_count = 0 \<and> best_digits = []) \<or>
        (4 \<le> best_count \<and> best_count \<le> 7 \<and> best_digits = placeholder_digits best_count))"

text \<open>
  A sample environment for concrete runs. The decoded image is 0, its grayscale 1, the
  contrast-enhanced image 2, the image binarized at \<open>t\<close> is \<open>t\<close>; there are 5
  digit-like contours at threshold 127, 6 at threshold 150 and 3 at the others. The OCR
  engine is the parameter.
\<close>

definition sample_env :: "(nat \<Rightarrow> exn + pystr) \<Rightarrow> (unit, nat, nat) env" where
  "sample_env ocr =
     \<lparr>decode_rgb = (\<lambda>b. Inr 0), image_to_string = ocr, ndim = (\<lambda>i. 3),
      cvtColor = (\<lambda>i. Inr 1), clahe_apply = (\<lambda>i. Inr 2), threshold = (\<lambda>i t. Inr t),
      morph_close = Inr, morph_open = Inr,
      findContours = (\<lambda>i. Inr (if i = 127 then [0..<5] else if i = 150 then [0..<6] else [0..<3])),
      boundingRect = (\<lambda>c. Inr (int c * 20, 0, 12, 20)), contourArea = (\<lambda>c. Inr 100)\<rparr>"

text \<open>
  Three OCR engines for the sample environment: one that always raises, one that reads
  the original image, and one that reads the binarized image and returns a text too short
  to be valid on the others.
\<close>

definition ocr_fails :: "nat \<Rightarrow> exn + pystr" where
  "ocr_fails i = Inl (Exception ''TesseractError'')"

definition ocr_original :: "nat \<Rightarrow> exn + pystr" where
  "ocr_original i = (if i = 0 then Inr (str ''45210'' @ [10]) else Inl (Exception ''TesseractError''))"

definition ocr_enhanced :: "nat \<Rightarrow> exn + pystr" where
  "ocr_enhanced i = (if i = 150 then Inr (str ''OO731'' @ [10, 12]) else Inr (str ''1I''))"

text \<open>
  An environment in which the OCR engine and the contrast enhancement raise, so that both
  OCR blocks and the contour analysis fail.
\<close>

definition failing_env :: "(unit, nat, nat) env" where
  "failing_env = (sample_env ocr_fails)\<lparr>clahe_apply := (\<lambda>i. Inl (Exception ''cv2.error''))\<rparr>"

section \<open>Lemmas on the normalizer and the validator\<close>

lemma re_digit_not_special:
  "re_digit U c \<Longrightarrow> c \<notin> set (str ''.-()O|I[] '')"
  by (auto simp: re_digit_def str_def split: if_splits)

lemma strip_digits:
  assumes "\<forall>c\<in>set s. re_digit U c"
  shows "strip_trailing U (strip_leading U s) = s"
proof -
  have l: "dropWhile (\<lambda>c. \<not> re_digit U c) s = s"
    using assms by (cases s) simp_all
  have "\<forall>c\<in>set (rev s). re_digit U c"
    using assms by simp
  then have "dropWhile (\<lambda>c. \<not> re_digit U c) (rev s) = rev s"
    by (cases "rev s") simp_all
  with l show ?thesis
    by (simp add: strip_leading_def strip_trailing_def)
qed

lemma clean_substitutes:
  assumes "\<forall>c\<in>set s. re_digit U c \<or> c \<in> set (str ''OI|[]'')"
  shows "clean_ocr_text U s = map ocr_substitute s"
proof -
  have keep: "remove_chars (noise_char U) s = s"
    unfolding remove_chars_def using assms
    by (intro filter_True) (auto simp: noise_char_def str_def)
  have sub: "replace_char (of_char CHR '']'') (of_char CHR ''1'')
               (replace_char (of_char CHR ''['') (of_char CHR ''1'')
                 (replace_char (of_char CHR ''|'') (of_char CHR ''1'')
                   (replace_char (of_char CHR ''I'') (of_char CHR ''1'')
                     (replace_char (of_char CHR ''O'') (of_char CHR ''0'') s)))) =
             map ocr_substitute s"
    by (induction s) (simp_all add: replace_char_def ocr_substitute_def str_def)
  have dig: "\<forall>c\<in>set (map ocr_substitute s). re_digit U c"
    using assms by (auto simp: ocr_substitute_def str_def re_digit_def)
  have p: "remove_chars punct_char (map ocr_substitute s) = map ocr_substitute s"
    unfolding remove_chars_def using dig
    by (intro filter_True) (use re_digit_not_special in \<open>auto simp: punct_char_def str_def\<close>)
  have sp: "remove_chars (\<lambda>c. c = of_char CHR '' '') (map ocr_substitute s) = map ocr_substitute s"
    unfolding remove_chars_def using dig
    by (intro filter_True) (use re_digit_not_special in \<open>auto simp: str_def\<close>)
  show ?thesis
  proof (cases "s = []")
    case True
    then show ?thesis by (simp add: clean_ocr_text_def)
  next
    case False
    then have "clean_ocr_text U s =
        strip_trailing U (strip_leading U
          (remove_chars (\<lambda>c. c = of_char CHR '' '') (remove_chars punct_char
            (map ocr_substitute (remove_chars (noise_char U) s)))))"
      unfolding clean_ocr_text_def Let_def keep sub by (simp only: if_False)
    then show ?thesis
      by (simp only: keep p sp strip_digits [OF dig])
  qed
qed

lemma ocr_substitute_digit: "re_digit U c \<Longrightarrow> ocr_substitute c = c"
  using re_digit_not_special [of U c] by (auto simp: ocr_substitute_def str_def)

lemma valid_iff:
  "is_valid_meter_reading U s \<longleftrightarrow>
     s \<noteq> [] \<and> (\<forall>c\<in>set s. isdigit_char U c) \<and> 4 \<le> length s \<and> length s \<le> 7 \<and>
     2 \<le> card (set s)"
proof -
  have "s \<noteq> [] \<Longrightarrow> card (set s) \<noteq> 0" by simp
  then show ?thesis
    by (auto simp: is_valid_meter_reading_def isdigit_def list_all_iff Let_def)
qed

lemma all_same_card:
  "s \<noteq> [] \<Longrightarrow> (\<forall>c\<in>set s. \<forall>d\<in>set s. c = d) \<Longrightarrow> card (set s) = 1"
  by (metis card_1_singleton_iff is_singletonI' is_singleton_altdef set_empty)

section \<open>Lemmas on the strategies\<close>

lemma and_then_Inl [simp]: "and_then (Inl e, tr) f = (Inl e, tr)"
  by (simp add: and_then_def)

lemma and_then_Inr [simp]: "and_then (Inr x, tr) f = (fst (f x), tr @ snd (f x))"
  by (simp add: and_then_def split: prod.splits)

lemma try_except_Inl [simp]: "try_except (Inl e, tr) h = (fst (h e), tr @ snd (h e))"
  by (simp add: try_except_def split: prod.splits)

lemma try_except_Inr [simp]: "try_except (Inr x, tr) h = (Inr x, tr)"
  by (simp add: try_except_def)

lemma method1_eq:
  "method1_original_ocr U E img = (Inr (candidate U (image_to_string E img)), [PrimaryOCR])"
  by (cases "image_to_string E img")
     (simp_all add: method1_original_ocr_def candidate_def emit_def call_def ret_def Let_def)

lemma method2_eq:
  "method2_enhanced_ocr U E img = (Inr (candidate U (enhanced_raw_text E img)), [EnhancedOCR])"
  by (cases "enhanced_raw_text E img")
     (simp_all add: method2_enhanced_ocr_def candidate_def emit_def call_def ret_def Let_def)

lemma candidate_valid: "candidate U r = Some t \<Longrightarrow> is_valid_meter_reading U t"
  by (auto simp: candidate_def Let_def split: sum.splits if_splits)

lemma length_placeholder [simp]: "length (placeholder_digits n) = n"
  by (simp add: placeholder_digits_def)

lemma sweep_state:
  "placeholder_state best \<Longrightarrow> sweep E enhanced ts best = (Inr best', tr) \<Longrightarrow>
     placeholder_state best'"
proof (induction ts arbitrary: best tr)
  case Nil
  then show ?case by (cases best) (simp add: ret_def)
next
  case (Cons t ts)
  obtain bd bc where best: "best = (bd, bc)" by (cases best)
  show ?case
  proof (cases "regions_at E enhanced t")
    case (Inl e)
    with Cons.prems best show ?thesis by (simp add: emit_def call_def)
  next
    case (Inr rs)
    let ?next = "if 4 \<le> length rs \<and> length rs \<le> 7 then
            (let sorted_regions = sort_key (\<lambda>(x, cnt, w, h, area). x) rs;
                 result = placeholder_digits (length sorted_regions)
             in if length sorted_regions > bc
                then (result, length sorted_regions)
                else (bd, bc))
          else (bd, bc)"
    have st: "placeholder_state ?next"
      using Cons.prems(1) best by (auto simp: placeholder_state_def Let_def)
    obtain r' tr' where sw: "sweep E enhanced ts ?next = (r', tr')"
      by (cases "sweep E enhanced ts ?next")
    with Cons.prems(2) best Inr have "r' = Inr best'"
      by (simp add: emit_def call_def)
    with sw Cons.IH [OF st] show ?thesis by simp
  qed
qed

lemma sweep_trace_thresholds: "strategies (snd (sweep E enhanced ts best)) = []"
proof (induction ts arbitrary: best)
  case Nil
  then show ?case by (cases best) (simp add: ret_def strategies_def)
next
  case (Cons t ts)
  obtain bd bc where best: "best = (bd, bc)" by (cases best)
  show ?case
  proof (cases "regions_at E enhanced t")
    case (Inl e)
    with best show ?thesis by (simp add: emit_def call_def strategies_def)
  next
    case (Inr rs)
    with best Cons.IH show ?thesis
      by (simp add: emit_def call_def strategies_def)
  qed
qed

lemma body_cases:
  "(\<exists>e tr. extract_digits_from_contours_body E img = (Inl e, tr) \<and> strategies tr = []) \<or>
   (\<exists>s tr. extract_digits_from_contours_body E img = (Inr s, tr) \<and> strategies tr = [] \<and>
      (s = [] \<or> (\<exists>n. 4 \<le> n \<and> n \<le> 7 \<and> s = placeholder_digits n)))"
proof (cases "if ndim E img = 3 then cvtColor E img else Inr img")
  case (Inl e)
  then show ?thesis
    by (simp add: extract_digits_from_contours_body_def call_def strategies_def)
next
  case gray: (Inr gray)
  show ?thesis
  proof (cases "clahe_apply E gray")
    case (Inl e)
    with gray show ?thesis
      by (simp add: extract_digits_from_contours_body_def call_def strategies_def)
  next
    case enh: (Inr enhanced)
    obtain r tr where sw: "sweep E enhanced thresholds ([], 0) = (r, tr)"
      by (cases "sweep E enhanced thresholds ([], 0)")
    have tr: "strategies tr = []"
      using sweep_trace_thresholds [of E enhanced thresholds "([], 0)"] sw by simp
    show ?thesis
    proof (cases r)
      case (Inl e)
      with gray enh sw tr show ?thesis
        by (simp add: extract_digits_from_contours_body_def call_def)
    next
      case (Inr best)
      obtain bd bc where best: "best = (bd, bc)" by (cases best)
      have "placeholder_state (bd, bc)"
        using sweep_state [of "([], 0)" E enhanced thresholds best tr] sw Inr best
        by (simp add: placeholder_state_def)
      then have "bd = [] \<or> (\<exists>n. 4 \<le> n \<and> n \<le> 7 \<and> bd = placeholder_digits n)"
        by (auto simp: placeholder_state_def)
      with gray enh sw tr Inr best show ?thesis
        by (auto simp: extract_digits_from_contours_body_def call_def ret_def)
    qed
  qed
qed

lemma contours_cases:
  "\<exists>s tr. extract_digits_from_contours E img = (Inr s, tr) \<and> strategies tr = [] \<and>
      (s = [] \<or> (\<exists>n. 4 \<le> n \<and> n \<le> 7 \<and> s = placeholder_digits n))"
  using body_cases [of E img]
  by (auto simp: extract_digits_from_contours_def ret_def)

lemma placeholder_values:
  "placeholder_digits 4 = str ''0123''" "placeholder_digits 5 = str ''01234''"
  "placeholder_digits 6 = str ''012345''" "placeholder_digits 7 = str ''0123456''"
  by (simp_all add: placeholder_digits_def str_def upt_rec)

lemma placeholder_cases:
  assumes "4 \<le> n" "n \<le> 7"
  shows "placeholder_digits n \<in> {str ''0123'', str ''01234'', str ''012345'', str ''0123456''}"
proof -
  from assms have "n = 4 \<or> n = 5 \<or> n = 6 \<or> n = 7" by arith
  then show ?thesis using placeholder_values by auto
qed

lemma placeholder_valid:
  assumes "4 \<le> n" "n \<le> 7"
  shows "is_valid_meter_reading U (placeholder_digits n)"
proof -
  from assms have "n = 4 \<or> n = 5 \<or> n = 6 \<or> n = 7" by arith
  then show ?thesis
    by (auto simp: placeholder_values is_valid_meter_reading_def isdigit_def isdigit_char_def re_digit_def str_def Let_def)
qed

lemma method3_eq:
  "\<exists>s tr. method3_contour_fallback U E img = (Inr s, ContourFallback # tr) \<and>
     strategies tr = [] \<and> fst (extract_digits_from_contours E img) = Inr s \<and>
     (s = [] \<or> is_valid_meter_reading U s)"
proof -
  obtain s tr where c: "extract_digits_from_contours E img = (Inr s, tr)" "strategies tr = []"
    and s: "s = [] \<or> (\<exists>n. 4 \<le> n \<and> n \<le> 7 \<and> s = placeholder_digits n)"
    using contours_cases [of E img] by blast
  from s have v: "s = [] \<or> is_valid_meter_reading U s"
    using placeholder_valid by blast
  with c show ?thesis
    by (auto simp: method3_contour_fallback_def emit_def ret_def)
qed

lemma emr_decode_error:
  "decode_rgb E b = Inl e \<Longrightarrow> extract_meter_reading U E b = (Inr [], [])"
  by (simp add: extract_meter_reading_def call_def ret_def)

lemma emr_primary:
  "decode_rgb E b = Inr img \<Longrightarrow> candidate U (image_to_string E img) = Some t \<Longrightarrow>
     extract_meter_reading U E b = (Inr t, [PrimaryOCR])"
  by (simp add: extract_meter_reading_def call_def ret_def method1_eq)

lemma emr_enhanced:
  "decode_rgb E b = Inr img \<Longrightarrow> candidate U (image_to_string E img) = None \<Longrightarrow>
     candidate U (enhanced_raw_text E img) = Some t \<Longrightarrow>
     extract_meter_reading U E b = (Inr t, [PrimaryOCR, EnhancedOCR])"
  by (simp add: extract_meter_reading_def call_def ret_def method1_eq method2_eq)

lemma emr_contour:
  assumes "decode_rgb E b = Inr img" "candidate U (image_to_string E img) = None"
    "candidate U (enhanced_raw_text E img) = None"
  shows "extract_meter_reading U E b =
       (fst (method3_contour_fallback U E img),
        [PrimaryOCR, EnhancedOCR] @ snd (method3_contour_fallback U E img))"
proof -
  obtain s tr where "method3_contour_fallback U E img = (Inr s, tr)"
    using method3_eq [of U E img] by blast
  with assms show ?thesis
    by (simp add: extract_meter_reading_def call_def ret_def method1_eq method2_eq)
qed

lemma emr_cases:
  "(\<exists>e. decode_rgb E b = Inl e \<and> extract_meter_reading U E b = (Inr [], [])) \<or>
   (\<exists>img t. decode_rgb E b = Inr img \<and> candidate U (image_to_string E img) = Some t \<and>
      extract_meter_reading U E b = (Inr t, [PrimaryOCR])) \<or>
   (\<exists>img t. decode_rgb E b = Inr img \<and> candidate U (image_to_string E img) = None \<and>
      candidate U (enhanced_raw_text E img) = Some t \<and>
      extract_meter_reading U E b = (Inr t, [PrimaryOCR, EnhancedOCR])) \<or>
   (\<exists>img s tr. decode_rgb E b = Inr img \<and> candidate U (image_to_string E img) = None \<and>
      candidate U (enhanced_raw_text E img) = None \<and>
      fst (extract_digits_from_contours E img) = Inr s \<and>
      (s = [] \<or> is_valid_meter_reading U s) \<and> strategies tr = [] \<and>
      extract_meter_reading U E b = (Inr s, [PrimaryOCR, EnhancedOCR, ContourFallback] @ tr))"
proof (cases "decode_rgb E b")
  case (Inl e)
  then show ?thesis using emr_decode_error [of E b e U] by blast
next
  case img: (Inr img)
  show ?thesis
  proof (cases "candidate U (image_to_string E img)")
    case (Some t)
    with img show ?thesis using emr_primary [of E b img U t] by blast
  next
    case p: None
    show ?thesis
    proof (cases "candidate U (enhanced_raw_text E img)")
      case (Some t)
      with img p show ?thesis using emr_enhanced [of E b img U t] by blast
    next
      case None
      obtain s tr where m3: "method3_contour_fallback U E img = (Inr s, ContourFallback # tr)"
        "strategies tr = []" "fst (extract_digits_from_contours E img) = Inr s"
        "s = [] \<or> is_valid_meter_reading U s"
        using method3_eq [of U E img] by blast
      have "extract_meter_reading U E b =
          (Inr s, [PrimaryOCR, EnhancedOCR, ContourFallback] @ tr)"
        using emr_contour [OF img p None] m3(1) by simp
      with img p None m3 show ?thesis by blast
    qed
  qed
qed

lemma fold_max_ge: "k \<le> fold max xs (k::nat)"
proof (induction xs arbitrary: k)
  case Nil
  show ?case by simp
next
  case (Cons x xs)
  have "k \<le> max x k" by simp
  also have "\<dots> \<le> fold max xs (max x k)" by (rule Cons.IH)
  finally show ?case by simp
qed

lemma Max_set_in: "xs \<noteq> [] \<Longrightarrow> Max (set xs) \<in> set (xs :: nat list)"
  by (metis Max_in List.finite_set set_empty)

lemma sweep_ok:
  "map (regions_at E enhanced) ts = map Inr regions \<Longrightarrow> placeholder_state (bd, bc) \<Longrightarrow>
   sweep E enhanced ts (bd, bc) =
     (Inr (let m = fold max (filter (\<lambda>n. 4 \<le> n \<and> n \<le> 7) (map length regions)) bc
           in (if m = bc then bd else placeholder_digits m, m)),
      map Threshold ts)"
proof (induction ts arbitrary: regions bd bc)
  case Nil
  then show ?case by (simp add: ret_def)
next
  case (Cons t ts)
  from Cons.prems(1) obtain rs rest where regions: "regions = rs # rest"
    and rs: "regions_at E enhanced t = Inr rs"
    and rest: "map (regions_at E enhanced) ts = map Inr rest"
    by (cases regions) auto
  let ?n = "length rs"
  let ?usable = "filter (\<lambda>n. 4 \<le> n \<and> n \<le> 7) (map length rest)"
  have mono: "\<And>k. k \<le> fold max ?usable k"
    by (rule fold_max_ge)
  show ?case
  proof (cases "4 \<le> ?n \<and> ?n \<le> 7 \<and> bc < ?n")
    case True
    then have st: "placeholder_state (placeholder_digits ?n, ?n)"
      by (simp add: placeholder_state_def)
    have ne: "fold max ?usable ?n \<noteq> bc"
      using mono [of ?n] True by arith
    have mx: "max ?n bc = ?n"
      using True by simp
    have "sweep E enhanced (t # ts) (bd, bc) =
        (fst (sweep E enhanced ts (placeholder_digits ?n, ?n)),
         Threshold t # snd (sweep E enhanced ts (placeholder_digits ?n, ?n)))"
      using True rs by (simp add: emit_def call_def Let_def)
    also have "\<dots> = (Inr (placeholder_digits (fold max ?usable ?n), fold max ?usable ?n),
        map Threshold (t # ts))"
      unfolding Cons.IH [OF rest st] by (simp add: Let_def)
    finally show ?thesis
      using True regions ne by (simp add: Let_def mx)
  next
    case False
    have eq: "fold max (filter (\<lambda>n. 4 \<le> n \<and> n \<le> 7) (map length regions)) bc =
        fold max ?usable bc"
      using False regions by (auto simp: max_def)
    from False rs regions Cons.IH [OF rest Cons.prems(2)] show ?thesis
      unfolding eq by (auto simp: emit_def call_def Let_def)
  qed
qed

lemma fold_max_Max: "fold max xs (0::nat) = (if xs = [] then 0 else Max (set xs))"
proof (cases xs)
  case Nil
  then show ?thesis by simp
next
  case (Cons x xs')
  have "Max (set (0 # xs)) = fold max xs 0" by (rule Max.set_eq_fold)
  moreover have "Max (set (0 # xs)) = Max (set xs)"
    using Cons by (simp del: set_simps(2) add: set_simps(2) [of 0])
  ultimately show ?thesis using Cons by simp
qed

lemma contours_ok:
  assumes gray: "(if ndim E img = 3 then cvtColor E img else Inr img) = Inr gray"
    and enh: "clahe_apply E gray = Inr enhanced"
    and regs: "map (regions_at E enhanced) [100, 127, 150, 180] = map Inr regions"
  shows "extract_digits_from_contours E img =
           (Inr (let usable = filter (\<lambda>n. 4 \<le> n \<and> n \<le> 7) (map length regions) in
                 if usable = [] then [] else placeholder_digits (Max (set usable))),
            [Threshold 100, Threshold 127, Threshold 150, Threshold 180])"
proof -
  let ?usable = "filter (\<lambda>n. 4 \<le> n \<and> n \<le> 7) (map length regions)"
  let ?m = "fold max ?usable 0"
  have st: "placeholder_state ([], 0)" by (simp add: placeholder_state_def)
  have sw: "sweep E enhanced thresholds ([], 0) =
      (Inr (if ?m = 0 then [] else placeholder_digits ?m, ?m), map Threshold thresholds)"
    using sweep_ok [of E enhanced thresholds regions "[]" 0] regs st
    by (simp add: thresholds_def Let_def)
  have m: "?m = (if ?usable = [] then 0 else Max (set ?usable))"
    by (rule fold_max_Max)
  have pos: "?usable \<noteq> [] \<Longrightarrow> 4 \<le> Max (set ?usable)"
  proof -
    assume ne: "?usable \<noteq> []"
    then have "Max (set ?usable) \<in> set ?usable" by (rule Max_set_in)
    then show ?thesis by simp
  qed
  have res: "(if ?m = 0 then [] else placeholder_digits ?m) =
      (if ?usable = [] then [] else placeholder_digits (Max (set ?usable)))"
    using m pos by (cases "?usable = []") auto
  define best where "best = (if ?usable = [] then [] else placeholder_digits (Max (set ?usable)))"
  have sw': "sweep E enhanced thresholds ([], 0) = (Inr (best, ?m), map Threshold thresholds)"
    unfolding sw res best_def ..
  have "extract_digits_from_contours_body E img =
      and_then (sweep E enhanced thresholds ([], 0)) (\<lambda>(best_digits, best_count).
        if best_digits \<noteq> [] then ret best_digits else ret [])"
    using gray enh by (simp add: extract_digits_from_contours_body_def call_def)
  also have "\<dots> = (Inr best, map Threshold thresholds)"
    unfolding sw' by (cases "best = []") (simp_all add: ret_def)
  finally have "extract_digits_from_contours_body E img = (Inr best, map Threshold thresholds)" .
  then show ?thesis
    by (simp add: extract_digits_from_contours_def thresholds_def Let_def best_def)
qed

lemma sample_regions:
  "map (regions_at (sample_env ocr) 2) [100, 127, 150, 180] =
     map Inr (map (\<lambda>n. map (\<lambda>c. (int c * 20, c, 12, 20, 100)) [0..<n]) [3, 5, 6, 3])"
  by (simp add: regions_at_def sample_env_def digit_like_def upt_rec)

lemma sample_contours:
  "extract_digits_from_contours (sample_env ocr) 0 =
     (Inr (str ''012345''), [Threshold 100, Threshold 127, Threshold 150, Threshold 180])"
proof -
  have g: "(if ndim (sample_env ocr) 0 = 3 then cvtColor (sample_env ocr) 0 else Inr 0) = Inr 1"
    by (simp add: sample_env_def)
  have e: "clahe_apply (sample_env ocr) 1 = Inr 2"
    by (simp add: sample_env_def)
  show ?thesis
    unfolding contours_ok [OF g e sample_regions]
    by (simp add: placeholder_values)
qed

lemma sample_original_text:
  "clean_ocr_text ascii_db (str ''45210'' @ [10]) = str ''45210''"
  by (simp add: clean_ocr_text_def str_def remove_chars_def replace_char_def noise_char_def
      punct_char_def strip_leading_def strip_trailing_def re_digit_def re_space_def)

lemma sample_enhanced_text:
  "clean_ocr_text ascii_db (str ''OO731'' @ [10, 12]) = str ''00731''"
  by (simp add: clean_ocr_text_def str_def remove_chars_def replace_char_def noise_char_def
      punct_char_def strip_leading_def strip_trailing_def re_digit_def re_space_def)

lemma sample_short_text:
  "clean_ocr_text ascii_db (str ''1I'') = str ''11''"
  by (simp add: clean_ocr_text_def str_def remove_chars_def replace_char_def noise_char_def
      punct_char_def strip_leading_def strip_trailing_def re_digit_def re_space_def)

lemma sample_valid:
  "is_valid_meter_reading ascii_db (str ''45210'')"
  "is_valid_meter_reading ascii_db (str ''00731'')"
  "\<not> is_valid_meter_reading ascii_db (str ''11'')"
  by (simp_all add: valid_iff str_def isdigit_char_def re_digit_def card_set)

lemma sample_decode: "decode_rgb (sample_env ocr) () = Inr 0"
  by (simp add: sample_env_def)

lemma sample_enhanced_raw: "enhanced_raw_text (sample_env ocr) 0 = ocr 150"
  by (simp add: enhanced_raw_text_def sample_env_def)

lemma sample_fails_candidates:
  "candidate U (image_to_string (sample_env ocr_fails) 0) = None"
  "candidate U (enhanced_raw_text (sample_env ocr_fails) 0) = None"
proof -
  show "candidate U (image_to_string (sample_env ocr_fails) 0) = None"
    by (simp add: candidate_def sample_env_def ocr_fails_def)
  have "enhanced_raw_text (sample_env ocr_fails) 0 = ocr_fails 150"
    by (rule sample_enhanced_raw)
  then show "candidate U (enhanced_raw_text (sample_env ocr_fails) 0) = None"
    by (simp add: candidate_def ocr_fails_def)
qed

section \<open>The validator and the normalizer\<close>

text \<open>
  Claim C2. \<open>is_valid_meter_reading\<close> accepts a string exactly when it is non-empty,
  every character is a digit (in the sense of \<open>str.isdigit\<close>), its length is between
  4 and 7, and it has at least 2 distinct characters. In particular it rejects the empty
  string, every non-numeric string, every string shorter than 4 or longer than 7, and
  every string whose characters are all the same.
\<close>

theorem is_valid_meter_reading_characterisation:
  "(is_valid_meter_reading U s \<longleftrightarrow>
      s \<noteq> [] \<and> (\<forall>c\<in>set s. isdigit_char U c) \<and> 4 \<le> length s \<and> length s \<le> 7 \<and>
      2 \<le> card (set s))
   \<and> (s = [] \<or> \<not> isdigit U s \<longrightarrow> \<not> is_valid_meter_reading U s)
   \<and> (length s < 4 \<or> 7 < length s \<longrightarrow> \<not> is_valid_meter_reading U s)
   \<and> ((\<forall>c\<in>set s. \<forall>d\<in>set s. c = d) \<longrightarrow> \<not> is_valid_meter_reading U s)"
proof -
  have same: "(\<forall>c\<in>set s. \<forall>d\<in>set s. c = d) \<Longrightarrow> \<not> is_valid_meter_reading U s"
  proof (cases "s = []")
    case True
    then show ?thesis by (simp add: is_valid_meter_reading_def)
  next
    case False
    assume "\<forall>c\<in>set s. \<forall>d\<in>set s. c = d"
    with False have "card (set s) = 1" by (rule all_same_card)
    then show ?thesis by (simp add: is_valid_meter_reading_def)
  qed
  have "s = [] \<or> \<not> isdigit U s \<Longrightarrow> \<not> is_valid_meter_reading U s"
    by (auto simp: is_valid_meter_reading_def)
  moreover have "length s < 4 \<or> 7 < length s \<Longrightarrow> \<not> is_valid_meter_reading U s"
    by (auto simp: is_valid_meter_reading_def)
  ultimately show ?thesis using valid_iff [of U s] same by blast
qed

theorem is_valid_meter_reading_characterisation_witness:
  "is_valid_meter_reading ascii_db (str ''04521'')
   \<and> \<not> is_valid_meter_reading ascii_db []
   \<and> \<not> is_valid_meter_reading ascii_db (str ''12a45'')
   \<and> \<not> is_valid_meter_reading ascii_db (str ''123'')
   \<and> \<not> is_valid_meter_reading ascii_db (str ''12345678'')
   \<and> \<not> is_valid_meter_reading ascii_db (str ''1111'')"
proof -
  have "card (set (str ''04521'')) = 5"
    by (simp add: str_def card_set)
  then have "is_valid_meter_reading ascii_db (str ''04521'')"
    using is_valid_meter_reading_characterisation [of ascii_db "str ''04521''"]
    by (simp add: str_def isdigit_char_def re_digit_def)
  moreover have "\<not> is_valid_meter_reading ascii_db []"
    using is_valid_meter_reading_characterisation [of ascii_db "[]"] by simp
  moreover have "\<not> is_valid_meter_reading ascii_db (str ''12a45'')"
    using is_valid_meter_reading_characterisation [of ascii_db "str ''12a45''"]
    by (simp add: str_def isdigit_def isdigit_char_def re_digit_def ascii_db_def)
  moreover have "\<not> is_valid_meter_reading ascii_db (str ''123'')"
    using is_valid_meter_reading_characterisation [of ascii_db "str ''123''"]
    by (simp add: str_def)
  moreover have "\<not> is_valid_meter_reading ascii_db (str ''12345678'')"
    using is_valid_meter_reading_characterisation [of ascii_db "str ''12345678''"]
    by (simp add: str_def)
  moreover have "\<not> is_valid_meter_reading ascii_db (str ''1111'')"
    using is_valid_meter_reading_characterisation [of ascii_db "str ''1111''"]
    by (simp add: str_def)
  ultimately show ?thesis by blast
qed

text \<open>
  Claim C10. The rule on fewer than 2 distinct digit values is redundant: the validator is
  equal, on every string, to the validator without that rule, because a string with fewer
  than 2 distinct characters is empty or has exactly one distinct character, and both
  are rejected earlier.
\<close>

theorem second_uniqueness_rule_redundant:
  "is_valid_meter_reading U s = is_valid_meter_reading_collapsed U s
   \<and> (card (set s) < 2 \<longrightarrow> s = [] \<or> card (set s) = 1)"
proof -
  have c: "card (set s) = 0 \<longleftrightarrow> s = []" by simp
  then have "is_valid_meter_reading U s = is_valid_meter_reading_collapsed U s"
    unfolding is_valid_meter_reading_def is_valid_meter_reading_collapsed_def Let_def
    by (cases "card (set s)") auto
  moreover have "card (set s) < 2 \<longrightarrow> s = [] \<or> card (set s) = 1"
    using c by (cases "card (set s)") auto
  ultimately show ?thesis by blast
qed

theorem second_uniqueness_rule_redundant_witness:
  "card (set (str ''1111'')) < 2 \<and> card (set (str ''1111'')) = 1
   \<and> \<not> is_valid_meter_reading_collapsed ascii_db (str ''1111'')
   \<and> is_valid_meter_reading_collapsed ascii_db (str ''0123'')"
proof -
  have c: "card (set (str ''1111'')) < 2"
    by (simp add: str_def)
  have v: "is_valid_meter_reading ascii_db (str ''0123'')"
    by (simp add: valid_iff str_def isdigit_char_def re_digit_def card_set)
  have n: "\<not> is_valid_meter_reading ascii_db (str ''1111'')"
    by (simp add: valid_iff str_def)
  have "str ''1111'' \<noteq> []" by (simp add: str_def)
  with c v n show ?thesis
    using second_uniqueness_rule_redundant [of ascii_db "str ''1111''"]
      second_uniqueness_rule_redundant [of ascii_db "str ''0123''"]
    by blast
qed

text \<open>
  Claim C9. \<open>clean_ocr_text\<close> returns a string of decimal digits unchanged.
\<close>

theorem clean_ocr_text_digits_unchanged:
  "(\<forall>c\<in>set s. re_digit U c) \<Longrightarrow> clean_ocr_text U s = s"
proof -
  assume d: "\<forall>c\<in>set s. re_digit U c"
  then have "clean_ocr_text U s = map ocr_substitute s"
    by (intro clean_substitutes) simp
  also have "\<dots> = s"
    using d by (intro map_idI) (simp add: ocr_substitute_digit [of U])
  finally show ?thesis .
qed

theorem clean_ocr_text_digits_unchanged_witness:
  "list_all (re_digit ascii_db) (str ''0042917'')
   \<and> clean_ocr_text ascii_db (str ''0042917'') = str ''0042917''"
proof -
  have d: "\<forall>c\<in>set (str ''0042917''). re_digit ascii_db c"
    by (simp add: str_def re_digit_def)
  from d clean_ocr_text_digits_unchanged [OF d] show ?thesis
    by (simp add: list_all_iff)
qed

text \<open>
  Claim C8. On a string of digits and the confusable glyphs O, I, vertical bar and
  brackets, \<open>clean_ocr_text\<close> is the substitution of the specification, character by
  character: O becomes 0, and I, the vertical bar and both brackets become 1. In
  particular \<open>12O34I\<close> becomes \<open>120341\<close>.
\<close>

theorem clean_ocr_text_substitution:
  "((\<forall>c\<in>set s. re_digit U c \<or> c \<in> set (str ''OI|[]'')) \<longrightarrow>
      clean_ocr_text U s = map ocr_substitute s)
   \<and> ocr_substitute (of_char CHR ''O'') = of_char CHR ''0''
   \<and> (\<forall>c\<in>set (str ''I|[]''). ocr_substitute c = of_char CHR ''1'')
   \<and> clean_ocr_text U (str ''12O34I'') = str ''120341''"
proof -
  have "\<forall>c\<in>set (str ''12O34I''). re_digit U c \<or> c \<in> set (str ''OI|[]'')"
    by (simp add: str_def re_digit_def)
  then have "clean_ocr_text U (str ''12O34I'') = map ocr_substitute (str ''12O34I'')"
    by (rule clean_substitutes)
  also have "\<dots> = str ''120341''"
    by (simp add: ocr_substitute_def str_def)
  finally have ex: "clean_ocr_text U (str ''12O34I'') = str ''120341''" .
  have "ocr_substitute (of_char CHR ''O'') = of_char CHR ''0''"
    by (simp add: ocr_substitute_def)
  moreover have "\<forall>c\<in>set (str ''I|[]''). ocr_substitute c = of_char CHR ''1''"
    by (simp add: ocr_substitute_def str_def)
  ultimately show ?thesis using ex clean_substitutes [of s U] by blast
qed

theorem clean_ocr_text_substitution_witness:
  "list_all (\<lambda>c. re_digit ascii_db c \<or> c \<in> set (str ''OI|[]'')) (str ''[7|O]I3'')
   \<and> clean_ocr_text ascii_db (str ''[7|O]I3'') = str ''1710113''"
proof -
  have h: "\<forall>c\<in>set (str ''[7|O]I3''). re_digit ascii_db c \<or> c \<in> set (str ''OI|[]'')"
    by (simp add: str_def re_digit_def)
  have m: "map ocr_substitute (str ''[7|O]I3'') = str ''1710113''"
    by (simp add: ocr_substitute_def str_def)
  have "clean_ocr_text ascii_db (str ''[7|O]I3'') = map ocr_substitute (str ''[7|O]I3'')"
    using h clean_ocr_text_substitution [of "str ''[7|O]I3''" ascii_db] by blast
  with h m show ?thesis
    by (simp add: list_all_iff)
qed

text \<open>
  Claim C7 says that every character of the output of \<open>clean_ocr_text\<close> is a digit. The
  source deletes the space character only (\<open>text.replace(" ", "")\<close>), while its first
  substitution keeps every whitespace character: a newline between two digits survives
  all seven steps. The theorem evaluates the function on \<open>12\n34\<close>, for every Unicode
  database: the result is the input, and its third character, the newline, is whitespace
  and no digit.
\<close>

theorem clean_ocr_text_keeps_inner_newline:
  "clean_ocr_text U (str ''12'' @ [10] @ str ''34'') = str ''12'' @ [10] @ str ''34''
   \<and> re_space U 10 \<and> \<not> re_digit U 10 \<and> \<not> isdigit_char U 10"
  by (simp add: clean_ocr_text_def str_def remove_chars_def replace_char_def noise_char_def
      punct_char_def strip_leading_def strip_trailing_def re_digit_def re_space_def
      isdigit_char_def)

theorem clean_ocr_text_keeps_inner_newline_witness:
  "\<not> list_all (re_digit ascii_db) (clean_ocr_text ascii_db (str ''12'' @ [10] @ str ''34''))"
  using clean_ocr_text_keeps_inner_newline [of ascii_db] by (simp add: str_def)

section \<open>The orchestrator and the contour fallback\<close>

text \<open>
  Claim C1. For every image buffer, every behaviour of the libraries and every Unicode
  database, \<open>extract_meter_reading\<close> returns normally, and what it returns is the empty
  string or a string that \<open>is_valid_meter_reading\<close> accepts.
\<close>

theorem extract_meter_reading_valid_or_empty:
  "\<exists>s. fst (extract_meter_reading U E b) = Inr s \<and> (s = [] \<or> is_valid_meter_reading U s)"
  using emr_cases [of E b U] candidate_valid [of U]
  by (elim disjE exE conjE) auto

theorem extract_meter_reading_valid_or_empty_witness:
  "fst (extract_meter_reading ascii_db (sample_env ocr_original) ()) = Inr (str ''45210'')
   \<and> is_valid_meter_reading ascii_db (str ''45210'')"
proof -
  have c: "candidate ascii_db (image_to_string (sample_env ocr_original) 0) = Some (str ''45210'')"
    by (simp add: candidate_def sample_env_def ocr_original_def sample_original_text sample_valid)
  have r: "fst (extract_meter_reading ascii_db (sample_env ocr_original) ()) = Inr (str ''45210'')"
    using emr_primary [OF sample_decode c] by simp
  have ne: "str ''45210'' \<noteq> []"
    by (simp add: str_def)
  from extract_meter_reading_valid_or_empty [of ascii_db "sample_env ocr_original" "()"]
  obtain s where "fst (extract_meter_reading ascii_db (sample_env ocr_original) ()) = Inr s"
    and "s = [] \<or> is_valid_meter_reading ascii_db s" by blast
  with r ne show ?thesis by simp
qed

text \<open>
  Claim C3. \<open>extract_meter_reading\<close> never raises. An error while decoding is caught
  by the outer handler and gives the empty string. An error in the first OCR block
  leaves that block without a candidate and the second block runs next; an error in the
  second block leaves it without a candidate and the contour fallback runs next; an
  error inside the contour analysis makes \<open>extract_digits_from_contours\<close> return the empty
  string. When no strategy yields a candidate, the result is the empty string.
\<close>

theorem extract_meter_reading_never_raises:
  "(\<exists>s. fst (extract_meter_reading U E b) = Inr s)
   \<and> (decode_rgb E b = Inl e \<longrightarrow> extract_meter_reading U E b = (Inr [], []))
   \<and> (decode_rgb E b = Inr img \<and> image_to_string E img = Inl e \<longrightarrow>
        method1_original_ocr U E img = (Inr None, [PrimaryOCR]) \<and>
        take 2 (snd (extract_meter_reading U E b)) = [PrimaryOCR, EnhancedOCR])
   \<and> (decode_rgb E b = Inr img \<and> fst (method1_original_ocr U E img) = Inr None \<and>
        enhanced_raw_text E img = Inl e \<longrightarrow>
        method2_enhanced_ocr U E img = (Inr None, [EnhancedOCR]) \<and>
        take 3 (snd (extract_meter_reading U E b)) = [PrimaryOCR, EnhancedOCR, ContourFallback])
   \<and> (fst (extract_digits_from_contours_body E img) = Inl e \<longrightarrow>
        fst (extract_digits_from_contours E img) = Inr [])
   \<and> (decode_rgb E b = Inr img \<and> fst (method1_original_ocr U E img) = Inr None \<and>
        fst (method2_enhanced_ocr U E img) = Inr None \<and>
        fst (extract_digits_from_contours E img) = Inr [] \<longrightarrow>
        fst (extract_meter_reading U E b) = Inr [])"
proof (intro conjI impI)
  show "\<exists>s. fst (extract_meter_reading U E b) = Inr s"
    using emr_cases [of E b U] by (elim disjE exE conjE) simp_all
next
  assume "decode_rgb E b = Inl e"
  then show "extract_meter_reading U E b = (Inr [], [])" by (rule emr_decode_error)
next
  assume a: "decode_rgb E b = Inr img \<and> image_to_string E img = Inl e"
  then show "method1_original_ocr U E img = (Inr None, [PrimaryOCR])"
    by (simp add: method1_eq candidate_def)
  from a have "candidate U (image_to_string E img) = None"
    by (simp add: candidate_def)
  with a show "take 2 (snd (extract_meter_reading U E b)) = [PrimaryOCR, EnhancedOCR]"
    using emr_cases [of E b U] by (elim disjE exE conjE) simp_all
next
  assume a: "decode_rgb E b = Inr img \<and> fst (method1_original_ocr U E img) = Inr None \<and>
    enhanced_raw_text E img = Inl e"
  then show "method2_enhanced_ocr U E img = (Inr None, [EnhancedOCR])"
    by (simp add: method2_eq candidate_def)
  from a have "candidate U (image_to_string E img) = None"
    "candidate U (enhanced_raw_text E img) = None"
    by (simp_all add: method1_eq candidate_def)
  with a show "take 3 (snd (extract_meter_reading U E b)) =
      [PrimaryOCR, EnhancedOCR, ContourFallback]"
    using emr_cases [of E b U] by (elim disjE exE conjE) simp_all
next
  assume "fst (extract_digits_from_contours_body E img) = Inl e"
  then show "fst (extract_digits_from_contours E img) = Inr []"
    by (cases "extract_digits_from_contours_body E img")
       (simp add: extract_digits_from_contours_def ret_def)
next
  assume a: "decode_rgb E b = Inr img \<and> fst (method1_original_ocr U E img) = Inr None \<and>
    fst (method2_enhanced_ocr U E img) = Inr None \<and>
    fst (extract_digits_from_contours E img) = Inr []"
  then have "candidate U (image_to_string E img) = None"
    "candidate U (enhanced_raw_text E img) = None"
    by (simp_all add: method1_eq method2_eq)
  with a show "fst (extract_meter_reading U E b) = Inr []"
    using emr_cases [of E b U] by (elim disjE exE conjE) simp_all
qed

theorem extract_meter_reading_never_raises_witness:
  "fst (extract_meter_reading ascii_db failing_env ()) = Inr []
   \<and> take 3 (snd (extract_meter_reading ascii_db failing_env ())) =
       [PrimaryOCR, EnhancedOCR, ContourFallback]
   \<and> extract_meter_reading ascii_db
       (failing_env\<lparr>decode_rgb := (\<lambda>b. Inl (Exception ''UnidentifiedImageError''))\<rparr>) () =
       (Inr [], [])"
proof -
  let ?e1 = "Exception ''TesseractError''"
  let ?e2 = "Exception ''cv2.error''"
  let ?e3 = "Exception ''UnidentifiedImageError''"
  note t = extract_meter_reading_never_raises [of ascii_db failing_env "()" _ 0]
  have d: "decode_rgb failing_env () = Inr 0"
    by (simp add: failing_env_def sample_env_def)
  have p: "image_to_string failing_env 0 = Inl ?e1"
    by (simp add: failing_env_def sample_env_def ocr_fails_def)
  have e: "enhanced_raw_text failing_env 0 = Inl ?e2"
    by (simp add: enhanced_raw_text_def failing_env_def sample_env_def)
  have c: "fst (extract_digits_from_contours_body failing_env 0) = Inl ?e2"
    by (simp add: extract_digits_from_contours_body_def call_def failing_env_def sample_env_def)
  from t [of ?e1] d p have m1: "fst (method1_original_ocr ascii_db failing_env 0) = Inr None"
    by simp
  from t [of ?e2] d m1 e have m2: "fst (method2_enhanced_ocr ascii_db failing_env 0) = Inr None"
    and tr: "take 3 (snd (extract_meter_reading ascii_db failing_env ())) =
       [PrimaryOCR, EnhancedOCR, ContourFallback]"
    by simp_all
  from t [of ?e2] c have m3: "fst (extract_digits_from_contours failing_env 0) = Inr []"
    by blast
  from t [of ?e2] d m1 m2 m3 have r: "fst (extract_meter_reading ascii_db failing_env ()) = Inr []"
    by blast
  have "extract_meter_reading ascii_db (failing_env\<lparr>decode_rgb := (\<lambda>b. Inl ?e3)\<rparr>) () =
      (Inr [], [])"
    using extract_meter_reading_never_raises
      [of ascii_db "failing_env\<lparr>decode_rgb := (\<lambda>b. Inl ?e3)\<rparr>" "()" ?e3 0]
    by simp
  with r tr show ?thesis by blast
qed

text \<open>
  Claim C4. The strategies of a run are entered in the order Primary, Enhanced, Contour,
  each at most once: the trace of strategies is a prefix of that sequence. When the
  normalized text of the first OCR block is valid, the run consists of the Primary
  strategy alone; when the first block has no candidate and the normalized text of the
  second block is valid, the run consists of Primary and Enhanced and never enters the
  contour fallback.
\<close>

theorem strategy_order_and_short_circuit:
  "strategies (snd (extract_meter_reading U E b)) \<in>
     {[], [PrimaryOCR], [PrimaryOCR, EnhancedOCR], [PrimaryOCR, EnhancedOCR, ContourFallback]}
   \<and> (decode_rgb E b = Inr img \<and> image_to_string E img = Inr raw \<and>
        is_valid_meter_reading U (clean_ocr_text U raw) \<longrightarrow>
        extract_meter_reading U E b = (Inr (clean_ocr_text U raw), [PrimaryOCR]))
   \<and> (decode_rgb E b = Inr img \<and> fst (method1_original_ocr U E img) = Inr None \<and>
        enhanced_raw_text E img = Inr raw \<and>
        is_valid_meter_reading U (clean_ocr_text U raw) \<longrightarrow>
        extract_meter_reading U E b = (Inr (clean_ocr_text U raw), [PrimaryOCR, EnhancedOCR]))"
proof (intro conjI impI)
  show "strategies (snd (extract_meter_reading U E b)) \<in>
     {[], [PrimaryOCR], [PrimaryOCR, EnhancedOCR], [PrimaryOCR, EnhancedOCR, ContourFallback]}"
    using emr_cases [of E b U]
  proof (elim disjE exE conjE)
    fix img s tr
    assume "strategies tr = []"
      and "extract_meter_reading U E b =
        (Inr s, [PrimaryOCR, EnhancedOCR, ContourFallback] @ tr)"
    then have "strategies (snd (extract_meter_reading U E b)) =
        [PrimaryOCR, EnhancedOCR, ContourFallback]"
      by (simp add: strategies_def)
    then show ?thesis by simp
  qed (simp_all add: strategies_def)
next
  assume a: "decode_rgb E b = Inr img \<and> image_to_string E img = Inr raw \<and>
    is_valid_meter_reading U (clean_ocr_text U raw)"
  then have "candidate U (image_to_string E img) = Some (clean_ocr_text U raw)"
    by (simp add: candidate_def)
  with a show "extract_meter_reading U E b = (Inr (clean_ocr_text U raw), [PrimaryOCR])"
    using emr_primary [of E b img U] by blast
next
  assume a: "decode_rgb E b = Inr img \<and> fst (method1_original_ocr U E img) = Inr None \<and>
    enhanced_raw_text E img = Inr raw \<and> is_valid_meter_reading U (clean_ocr_text U raw)"
  then have "candidate U (image_to_string E img) = None"
    "candidate U (enhanced_raw_text E img) = Some (clean_ocr_text U raw)"
    by (simp_all add: method1_eq candidate_def)
  with a show "extract_meter_reading U E b =
      (Inr (clean_ocr_text U raw), [PrimaryOCR, EnhancedOCR])"
    using emr_enhanced [of E b img U] by blast
qed

theorem strategy_order_and_short_circuit_witness:
  "extract_meter_reading ascii_db (sample_env ocr_original) () =
     (Inr (str ''45210''), [PrimaryOCR])
   \<and> extract_meter_reading ascii_db (sample_env ocr_enhanced) () =
     (Inr (str ''00731''), [PrimaryOCR, EnhancedOCR])
   \<and> strategies (snd (extract_meter_reading ascii_db (sample_env ocr_fails) ())) =
     [PrimaryOCR, EnhancedOCR, ContourFallback]"
proof -
  have p: "image_to_string (sample_env ocr_original) 0 = Inr (str ''45210'' @ [10])"
    by (simp add: sample_env_def ocr_original_def)
  have a: "extract_meter_reading ascii_db (sample_env ocr_original) () =
      (Inr (str ''45210''), [PrimaryOCR])"
    using strategy_order_and_short_circuit
      [of ascii_db "sample_env ocr_original" "()" 0 "str ''45210'' @ [10]"]
      sample_decode [of ocr_original] p
    by (simp add: sample_original_text sample_valid)
  have m1: "fst (method1_original_ocr ascii_db (sample_env ocr_enhanced) 0) = Inr None"
    by (simp add: method1_eq candidate_def sample_env_def ocr_enhanced_def sample_short_text
        sample_valid)
  have e: "enhanced_raw_text (sample_env ocr_enhanced) 0 = Inr (str ''OO731'' @ [10, 12])"
    by (simp add: sample_enhanced_raw ocr_enhanced_def)
  have b: "extract_meter_reading ascii_db (sample_env ocr_enhanced) () =
      (Inr (str ''00731''), [PrimaryOCR, EnhancedOCR])"
    using strategy_order_and_short_circuit
      [of ascii_db "sample_env ocr_enhanced" "()" 0 "str ''OO731'' @ [10, 12]"]
      sample_decode [of ocr_enhanced] m1 e
    by (simp add: sample_enhanced_text sample_valid)
  note c1 = sample_fails_candidates [of ascii_db]
  have "ContourFallback \<in> set (snd (extract_meter_reading ascii_db (sample_env ocr_fails) ()))"
    using emr_contour [OF sample_decode c1] method3_eq [of ascii_db "sample_env ocr_fails" 0]
    by auto
  then have "ContourFallback \<in>
      set (strategies (snd (extract_meter_reading ascii_db (sample_env ocr_fails) ())))"
    by (simp add: strategies_def)
  moreover have "strategies (snd (extract_meter_reading ascii_db (sample_env ocr_fails) ())) \<in>
      {[], [PrimaryOCR], [PrimaryOCR, EnhancedOCR], [PrimaryOCR, EnhancedOCR, ContourFallback]}"
    using strategy_order_and_short_circuit [of ascii_db "sample_env ocr_fails" "()" 0 "[]"]
    by (rule conjunct1)
  ultimately have c: "strategies (snd (extract_meter_reading ascii_db (sample_env ocr_fails) ())) =
      [PrimaryOCR, EnhancedOCR, ContourFallback]"
    by auto
  from a b c show ?thesis by blast
qed

text \<open>
  Claim C5. In a run of \<open>extract_digits_from_contours\<close> in which no library call raises,
  the thresholds visited are 100, 127, 150, 180 in that order; a threshold is usable when
  its number of digit-like regions lies between 4 and 7; the result is the empty string
  when no threshold is usable, and otherwise the placeholder for the largest usable
  count, whose length is that count.
\<close>

theorem contour_sweep_selects_most_regions:
  assumes gray: "(if ndim E img = 3 then cvtColor E img else Inr img) = Inr gray"
    and enh: "clahe_apply E gray = Inr enhanced"
    and regs: "map (regions_at E enhanced) [100, 127, 150, 180] = map Inr regions"
  shows "thresholds = [100, 127, 150, 180]
     \<and> extract_digits_from_contours E img =
         (Inr (let usable = filter (\<lambda>n. 4 \<le> n \<and> n \<le> 7) (map length regions) in
               if usable = [] then [] else placeholder_digits (Max (set usable))),
          [Threshold 100, Threshold 127, Threshold 150, Threshold 180])
     \<and> (\<forall>n. length (placeholder_digits n) = n)"
  using contours_ok [OF gray enh regs] by (simp add: thresholds_def)

theorem contour_sweep_selects_most_regions_witness:
  "extract_digits_from_contours (sample_env ocr_fails) 0 =
     (Inr (str ''012345''), [Threshold 100, Threshold 127, Threshold 150, Threshold 180])
   \<and> length (str ''012345'') = 6"
proof -
  have g: "(if ndim (sample_env ocr_fails) 0 = 3 then cvtColor (sample_env ocr_fails) 0
      else Inr 0) = Inr 1"
    by (simp add: sample_env_def)
  have e: "clahe_apply (sample_env ocr_fails) 1 = Inr 2"
    by (simp add: sample_env_def)
  show ?thesis
    using contour_sweep_selects_most_regions [OF g e sample_regions]
    by (simp add: placeholder_values) (simp add: str_def)
qed

text \<open>
  Claim C6. \<open>extract_digits_from_contours\<close> returns the empty string or one of
  \<open>0123\<close>, \<open>01234\<close>, \<open>012345\<close>, \<open>0123456\<close>; each of the four passes the
  validator; and when both OCR blocks end without a candidate and the contour fallback
  returns a non-empty string, \<open>extract_meter_reading\<close> returns that string.
\<close>

theorem contour_placeholder_values:
  "fst (extract_digits_from_contours E img) \<in>
     Inr ` {[], str ''0123'', str ''01234'', str ''012345'', str ''0123456''}
   \<and> list_all (is_valid_meter_reading U)
       [str ''0123'', str ''01234'', str ''012345'', str ''0123456'']
   \<and> (decode_rgb E b = Inr img \<and> fst (method1_original_ocr U E img) = Inr None \<and>
        fst (method2_enhanced_ocr U E img) = Inr None \<and>
        fst (extract_digits_from_contours E img) = Inr s \<and> s \<noteq> [] \<longrightarrow>
        fst (extract_meter_reading U E b) = Inr s)"
proof (intro conjI impI)
  obtain s tr where c: "extract_digits_from_contours E img = (Inr s, tr)"
    and s: "s = [] \<or> (\<exists>n. 4 \<le> n \<and> n \<le> 7 \<and> s = placeholder_digits n)"
    using contours_cases [of E img] by blast
  from s have "s \<in> {[], str ''0123'', str ''01234'', str ''012345'', str ''0123456''}"
    using placeholder_cases by blast
  with c show "fst (extract_digits_from_contours E img) \<in>
     Inr ` {[], str ''0123'', str ''01234'', str ''012345'', str ''0123456''}"
    by simp
next
  show "list_all (is_valid_meter_reading U)
       [str ''0123'', str ''01234'', str ''012345'', str ''0123456'']"
    using placeholder_valid [of 4 U] placeholder_valid [of 5 U] placeholder_valid [of 6 U]
      placeholder_valid [of 7 U]
    by (simp add: placeholder_values)
next
  assume a: "decode_rgb E b = Inr img \<and> fst (method1_original_ocr U E img) = Inr None \<and>
    fst (method2_enhanced_ocr U E img) = Inr None \<and>
    fst (extract_digits_from_contours E img) = Inr s \<and> s \<noteq> []"
  then have "candidate U (image_to_string E img) = None"
    "candidate U (enhanced_raw_text E img) = None"
    by (simp_all add: method1_eq method2_eq)
  with a show "fst (extract_meter_reading U E b) = Inr s"
    using emr_cases [of E b U] by (elim disjE exE conjE) simp_all
qed

theorem contour_placeholder_values_witness:
  "fst (extract_meter_reading ascii_db (sample_env ocr_fails) ()) = Inr (str ''012345'')
   \<and> is_valid_meter_reading ascii_db (str ''012345'')"
proof -
  note t = contour_placeholder_values [of "sample_env ocr_fails" 0 ascii_db "()" "str ''012345''"]
  have m: "fst (method1_original_ocr ascii_db (sample_env ocr_fails) 0) = Inr None"
    "fst (method2_enhanced_ocr ascii_db (sample_env ocr_fails) 0) = Inr None"
    by (simp_all add: method1_eq method2_eq sample_fails_candidates)
  have c: "fst (extract_digits_from_contours (sample_env ocr_fails) 0) = Inr (str ''012345'')"
    by (simp add: sample_contours)
  have ne: "str ''012345'' \<noteq> []"
    by (simp add: str_def)
  from t sample_decode [of ocr_fails] m c ne show ?thesis by simp
qed

end
